theory Spec2Isabelle
  imports Complex_Main
begin

section \<open>JavaScript values\<close>

text \<open>
  Protocol frames, discovery records and the simulator listing all reach the adapter as
  decoded JSON, so a value is a JSON tree, plus \<open>undefined\<close> for what a read of an
  absent property gives. A string is the list of its code units (those below 256), an
  object the list of its own properties in enumeration order.
\<close>

datatype error = TypeError | SyntaxError | Error string

datatype number = NaN | Finite rat | PosInfinity | NegInfinity

datatype jsval =
    JUndefined
  | JNull
  | JBool bool
  | JNum number
  | JStr string
  | JArr "jsval list"
  | JObj "(string \<times> jsval) list"

fun truthy :: "jsval \<Rightarrow> bool" where
  "truthy JUndefined = False"
| "truthy JNull = False"
| "truthy (JBool b) = b"
| "truthy (JNum n) = (n \<noteq> NaN \<and> n \<noteq> Finite 0)"
| "truthy (JStr s) = (s \<noteq> [])"
| "truthy (JArr xs) = True"
| "truthy (JObj kvs) = True"

subsection \<open>Strings: decimal index keys, \<open>split\<close>, \<open>parseInt(s, 10)\<close>\<close>

definition digit_char :: "nat \<Rightarrow> char" where
  "digit_char d = ''0123456789'' ! d"

text \<open>\<open>String(i)\<close> for a non-negative integer: the key under which an object holds index \<open>i\<close>.\<close>

fun dec :: "nat \<Rightarrow> string" where
  "dec n = (if n < 10 then [digit_char n] else dec (n div 10) @ [digit_char (n mod 10)])"

declare dec.simps [simp del]

text \<open>\<open>s.split(c)\<close> for a one-character separator: never empty, \<open>''''.split(c)\<close> is \<open>['''']\<close>.\<close>

fun split_on :: "char \<Rightarrow> string \<Rightarrow> string list" where
  "split_on c [] = [[]]"
| "split_on c (x # xs) =
     (if x = c then [] # split_on c xs
      else (case split_on c xs of [] \<Rightarrow> [[x]] | p # ps \<Rightarrow> (x # p) # ps))"

text \<open>\<open>parts[i]\<close> handed to \<open>parseInt\<close>, which reads \<open>undefined\<close> as the string "undefined".\<close>

definition part_string :: "string list \<Rightarrow> nat \<Rightarrow> string" where
  "part_string parts i = (if i < length parts then parts ! i else ''undefined'')"

definition is_white :: "char \<Rightarrow> bool" where
  "is_white c = (of_char c \<in> {9, 10, 11, 12, 13, 32, 160 :: nat})"

definition is_digit :: "char \<Rightarrow> bool" where
  "is_digit c = (48 \<le> (of_char c :: nat) \<and> (of_char c :: nat) \<le> 57)"

definition digit_val :: "char \<Rightarrow> nat" where
  "digit_val c = of_char c - 48"

definition digits_val :: "string \<Rightarrow> nat" where
  "digits_val ds = foldl (\<lambda>a c. 10 * a + digit_val c) 0 ds"

text \<open>
  \<open>parseInt(s, 10)\<close>: skip leading white space, read an optional sign, then the longest
  run of decimal digits; no digit gives NaN (\<open>None\<close>). The value is kept as an unbounded
  integer: rounding to a double is monotone and exact on the small constants the callers
  compare with.
\<close>

definition parseInt10 :: "string \<Rightarrow> int option" where
  "parseInt10 s =
     (let t = dropWhile is_white s;
          neg = (t \<noteq> [] \<and> hd t = CHR ''-'');
          u = (if t \<noteq> [] \<and> (hd t = CHR ''+'' \<or> hd t = CHR ''-'') then tl t else t);
          ds = takeWhile is_digit u
      in if ds = [] then None
         else Some (if neg then - int (digits_val ds) else int (digits_val ds)))"

text \<open>Comparisons of a parsed number with a constant: every comparison with NaN is false.\<close>

definition num_le :: "int option \<Rightarrow> int \<Rightarrow> bool" where
  "num_le a b = (case a of None \<Rightarrow> False | Some x \<Rightarrow> x \<le> b)"

definition num_gt :: "int option \<Rightarrow> int \<Rightarrow> bool" where
  "num_gt a b = (case a of None \<Rightarrow> False | Some x \<Rightarrow> x > b)"

definition num_ge :: "int option \<Rightarrow> int \<Rightarrow> bool" where
  "num_ge a b = (case a of None \<Rightarrow> False | Some x \<Rightarrow> x \<ge> b)"

definition num_eq :: "int option \<Rightarrow> int \<Rightarrow> bool" where
  "num_eq a b = (case a of None \<Rightarrow> False | Some x \<Rightarrow> x = b)"

section \<open>Targets and protocol selection (iosAdapter.ts)\<close>

text \<open>
  A device record as discovery reports it (IIOSDeviceTarget): a device id and a URL, an
  OS version when the proxy knows it (\<open>undefined\<close> otherwise), and the \<open>version\<close> that
  \<open>getTargets\<close> fills in.
\<close>

record IIOSDeviceTarget =
  deviceId :: string
  deviceOSVersion :: jsval
  url :: string
  version :: jsval

text \<open>
  The fields of a Target that this code reads or writes: \<open>target.targetBased\<close> and the
  device record \<open>target.data.metadata\<close>.
\<close>

record Target =
  targetBased :: bool
  metadata :: IIOSDeviceTarget

text \<open>Which protocol class \<open>getProtocolFor\<close> instantiates.\<close>

datatype IOSProtocol = IOS8Protocol | IOS9Protocol | IOS12Protocol | IOS13Protocol

text \<open>
  \<open>getProtocolFor(version, target)\<close>. A \<open>version\<close> that is not a string has no
  callable \<open>split\<close>, so the first statement throws a TypeError.
\<close>

definition version_major :: "string \<Rightarrow> int option" where
  "version_major v = parseInt10 (part_string (split_on CHR ''.'' v) 0)"

definition version_minor :: "string \<Rightarrow> int option" where
  "version_minor v = parseInt10 (part_string (split_on CHR ''.'' v) 1)"

definition getProtocolFor :: "jsval \<Rightarrow> Target \<Rightarrow> error + IOSProtocol" where
  "getProtocolFor ver target =
     (case ver of
        JStr v \<Rightarrow>
          (let parts = split_on CHR ''.'' v in
           if length parts > 0 then
             (let major = parseInt10 (part_string parts 0);
                  minor = parseInt10 (part_string parts 1)
              in if num_le major 8 then Inr IOS8Protocol
                 else if num_gt major 13 \<or> num_ge major 13 \<and> num_ge minor 4 then Inr IOS13Protocol
                 else if deviceId (metadata target) \<noteq> ''SIMULATOR'' \<and> num_eq major 12 \<and> num_eq minor 2
                   then Inr IOS12Protocol
                 else Inr IOS9Protocol)
           else Inr IOS9Protocol)
      | _ \<Rightarrow> Inl TypeError)"

section \<open>Protocol selection: properties\<close>

lemma split_on_nonempty: "split_on c s \<noteq> []"
  by (induction s) (auto split: list.splits)

lemma getProtocolFor_string:
  "getProtocolFor (JStr v) target =
     Inr (if num_le (version_major v) 8 then IOS8Protocol
          else if num_gt (version_major v) 13
                  \<or> num_ge (version_major v) 13 \<and> num_ge (version_minor v) 4 then IOS13Protocol
          else if deviceId (metadata target) \<noteq> ''SIMULATOR'' \<and> num_eq (version_major v) 12
                  \<and> num_eq (version_minor v) 2 then IOS12Protocol
          else IOS9Protocol)"
  using split_on_nonempty [of "CHR ''.''" v]
  by (simp add: getProtocolFor_def version_major_def version_minor_def Let_def)

subsection \<open>Rule 2: iOS 13.4 and later\<close>

text \<open>
  Claim C2. Every version string whose MAJOR component is greater than 13, or whose MAJOR
  component is 13 and whose MINOR component is at least 4, selects IOS13Protocol, on a
  device and on the simulator alike. The components are the numbers the resolver reads:
  \<open>parseInt\<close> of the first and of the second dot-separated part.
\<close>

theorem getProtocolFor_ios13:
  assumes "num_gt (version_major v) 13
             \<or> num_eq (version_major v) 13 \<and> num_ge (version_minor v) 4"
  shows "getProtocolFor (JStr v) target = Inr IOS13Protocol"
proof -
  from assms have not8: "\<not> num_le (version_major v) 8"
    by (auto simp: num_le_def num_gt_def num_eq_def split: option.splits)
  from assms have "num_gt (version_major v) 13
                     \<or> num_ge (version_major v) 13 \<and> num_ge (version_minor v) 4"
    by (auto simp: num_ge_def num_eq_def split: option.splits)
  with not8 show ?thesis
    by (simp only: getProtocolFor_string if_False if_True)
qed

lemma version_13_4: "version_major ''13.4'' = Some 13 \<and> version_minor ''13.4'' = Some 4"
  by code_simp

lemma version_14: "version_major ''14'' = Some 14 \<and> version_minor ''14'' = None"
  by code_simp

theorem getProtocolFor_ios13_witness:
  "getProtocolFor (JStr ''13.4'')
       \<lparr>targetBased = False, metadata = \<lparr>deviceId = ''SIMULATOR'', deviceOSVersion = JUndefined,
          url = ''localhost:9222'', version = JStr ''13.4''\<rparr>\<rparr>
     = Inr IOS13Protocol
   \<and> getProtocolFor (JStr ''14'')
       \<lparr>targetBased = True, metadata = \<lparr>deviceId = ''4ea8dd11e8c4fbc1a2deadbeefa0fd3bbbb268c7'', deviceOSVersion = JUndefined,
          url = ''localhost:9222'', version = JStr ''14''\<rparr>\<rparr>
     = Inr IOS13Protocol"
proof -
  have a: "num_gt (version_major ''13.4'') 13
             \<or> num_eq (version_major ''13.4'') 13 \<and> num_ge (version_minor ''13.4'') 4"
    using version_13_4 by (simp add: num_eq_def num_ge_def)
  have b: "num_gt (version_major ''14'') 13
             \<or> num_eq (version_major ''14'') 13 \<and> num_ge (version_minor ''14'') 4"
    using version_14 by (simp add: num_gt_def)
  show ?thesis
    using getProtocolFor_ios13 [OF a] getProtocolFor_ios13 [OF b] by simp
qed

subsection \<open>Rule 3: iOS 12.2 on a device\<close>

lemma version_12_2: "version_major ''12.2'' = Some 12 \<and> version_minor ''12.2'' = Some 2"
  by code_simp

text \<open>
  Claim C3. The version string "12.2" selects IOS12Protocol on a physical device (any
  device id other than SIMULATOR) and the default IOS9Protocol on the simulator.
\<close>

theorem getProtocolFor_12_2:
  "getProtocolFor (JStr ''12.2'') target
     = Inr (if deviceId (metadata target) = ''SIMULATOR'' then IOS9Protocol else IOS12Protocol)"
  using version_12_2
  by (simp add: getProtocolFor_string num_le_def num_gt_def num_ge_def num_eq_def)

theorem getProtocolFor_12_2_witness:
  "getProtocolFor (JStr ''12.2'')
       \<lparr>targetBased = False, metadata = \<lparr>deviceId = ''4ea8dd11e8c4fbc1a2deadbeefa0fd3bbbb268c7'', deviceOSVersion = JUndefined,
          url = ''localhost:9222'', version = JStr ''12.2''\<rparr>\<rparr>
     = Inr IOS12Protocol
   \<and> getProtocolFor (JStr ''12.2'')
       \<lparr>targetBased = False, metadata = \<lparr>deviceId = ''SIMULATOR'', deviceOSVersion = JUndefined,
          url = ''localhost:9222'', version = JStr ''12.2''\<rparr>\<rparr>
     = Inr IOS9Protocol"
  using getProtocolFor_12_2
          [of "\<lparr>targetBased = False, metadata = \<lparr>deviceId = ''4ea8dd11e8c4fbc1a2deadbeefa0fd3bbbb268c7'', deviceOSVersion = JUndefined,
          url = ''localhost:9222'', version = JStr ''12.2''\<rparr>\<rparr>"]
        getProtocolFor_12_2
          [of "\<lparr>targetBased = False, metadata = \<lparr>deviceId = ''SIMULATOR'', deviceOSVersion = JUndefined,
          url = ''localhost:9222'', version = JStr ''12.2''\<rparr>\<rparr>"]
  by simp

subsection \<open>Rule 4: the default\<close>

lemma version_abc: "version_major ''abc'' = None"
  by code_simp

lemma version_empty: "version_major [] = None"
  by code_simp

lemma version_13: "version_major ''13'' = Some 13 \<and> version_minor ''13'' = None"
  by code_simp

lemma version_7: "version_major ''7'' = Some 7 \<and> version_minor ''7'' = None"
  by code_simp

text \<open>
  Claim C4, as stated, fails: "14" lacks a MINOR component exactly as "13" does, and
  selects IOS13Protocol; "7" lacks it too and selects IOS8Protocol. The first two rules
  look at MAJOR before the default is reached.
\<close>

theorem getProtocolFor_malformed_counterexample:
  "version_minor ''14'' = None
   \<and> getProtocolFor (JStr ''14'')
        \<lparr>targetBased = False, metadata = \<lparr>deviceId = ''SIMULATOR'', deviceOSVersion = JUndefined,
          url = ''localhost:9222'', version = JStr ''14''\<rparr>\<rparr>
       = Inr IOS13Protocol
   \<and> version_minor ''7'' = None
   \<and> getProtocolFor (JStr ''7'')
        \<lparr>targetBased = False, metadata = \<lparr>deviceId = ''SIMULATOR'', deviceOSVersion = JUndefined,
          url = ''localhost:9222'', version = JStr ''7''\<rparr>\<rparr>
       = Inr IOS8Protocol"
  using version_14 version_7
  by (simp add: getProtocolFor_string num_le_def num_gt_def num_ge_def num_eq_def)

text \<open>
  Claim C4, amended. On every version string the resolver returns a protocol and does not
  throw. MAJOR and MINOR being the numbers it parses from the first and the second
  dot-separated part, and a comparison with a part that is not a number being false: it
  returns the default IOS9Protocol exactly when rule 1 (MAJOR at most 8), rule 2 (MAJOR
  above 13, or MAJOR 13 and MINOR at least 4) and rule 3 (not the simulator, MAJOR 12 and
  MINOR 2) all fail. So it returns the default whenever MAJOR is not a number (as in "abc"
  and the empty string), and whenever MAJOR is between 9 and 13 and MINOR is missing or
  not a number (as in "13"); a malformed string whose parts still parse, such as
  "11.5garbage", gets the default by the same rule. A string whose MAJOR is a number of
  at most 8 selects IOS8Protocol, and one whose MAJOR is above 13 selects IOS13Protocol,
  however malformed the rest of it is (as in "7" and "14").
\<close>

theorem getProtocolFor_default:
  "(\<exists>p. getProtocolFor (JStr v) target = Inr p)
   \<and> (getProtocolFor (JStr v) target = Inr IOS9Protocol \<longleftrightarrow>
        \<not> num_le (version_major v) 8
        \<and> \<not> (num_gt (version_major v) 13
               \<or> num_eq (version_major v) 13 \<and> num_ge (version_minor v) 4)
        \<and> \<not> (deviceId (metadata target) \<noteq> ''SIMULATOR''
               \<and> num_eq (version_major v) 12 \<and> num_eq (version_minor v) 2))
   \<and> (version_major v = None
        \<or> num_ge (version_major v) 9 \<and> num_le (version_major v) 13 \<and> version_minor v = None
      \<longrightarrow> getProtocolFor (JStr v) target = Inr IOS9Protocol)
   \<and> (num_le (version_major v) 8 \<longrightarrow> getProtocolFor (JStr v) target = Inr IOS8Protocol)
   \<and> (num_gt (version_major v) 13 \<longrightarrow> getProtocolFor (JStr v) target = Inr IOS13Protocol)"
proof (intro conjI)
  show "\<exists>p. getProtocolFor (JStr v) target = Inr p"
    by (simp add: getProtocolFor_string)
  show "getProtocolFor (JStr v) target = Inr IOS9Protocol \<longleftrightarrow>
        \<not> num_le (version_major v) 8
        \<and> \<not> (num_gt (version_major v) 13
               \<or> num_eq (version_major v) 13 \<and> num_ge (version_minor v) 4)
        \<and> \<not> (deviceId (metadata target) \<noteq> ''SIMULATOR''
               \<and> num_eq (version_major v) 12 \<and> num_eq (version_minor v) 2)"
    by (auto simp: getProtocolFor_string num_le_def num_gt_def num_ge_def num_eq_def
             split: option.splits)
  show "version_major v = None
        \<or> num_ge (version_major v) 9 \<and> num_le (version_major v) 13 \<and> version_minor v = None
      \<longrightarrow> getProtocolFor (JStr v) target = Inr IOS9Protocol"
    by (auto simp: getProtocolFor_string num_le_def num_gt_def num_ge_def num_eq_def
             split: option.splits)
  show "num_le (version_major v) 8 \<longrightarrow> getProtocolFor (JStr v) target = Inr IOS8Protocol"
    by (simp add: getProtocolFor_string)
  show "num_gt (version_major v) 13 \<longrightarrow> getProtocolFor (JStr v) target = Inr IOS13Protocol"
    by (auto simp: getProtocolFor_string num_le_def num_gt_def split: option.splits)
qed

lemma version_11_5garbage:
  "version_major ''11.5garbage'' = Some 11 \<and> version_minor ''11.5garbage'' = Some 5"
  by code_simp

theorem getProtocolFor_default_witness:
  "getProtocolFor (JStr ''abc'')
       \<lparr>targetBased = False, metadata = \<lparr>deviceId = ''SIMULATOR'', deviceOSVersion = JUndefined,
          url = ''localhost:9222'', version = JStr ''abc''\<rparr>\<rparr>
     = Inr IOS9Protocol
   \<and> getProtocolFor (JStr [])
       \<lparr>targetBased = False, metadata = \<lparr>deviceId = ''SIMULATOR'', deviceOSVersion = JUndefined,
          url = ''localhost:9222'', version = JStr []\<rparr>\<rparr>
     = Inr IOS9Protocol
   \<and> getProtocolFor (JStr ''13'')
       \<lparr>targetBased = False, metadata = \<lparr>deviceId = ''4ea8dd11e8c4fbc1a2deadbeefa0fd3bbbb268c7'', deviceOSVersion = JUndefined,
          url = ''localhost:9222'', version = JStr ''13''\<rparr>\<rparr>
     = Inr IOS9Protocol
   \<and> getProtocolFor (JStr ''11.5garbage'')
       \<lparr>targetBased = False, metadata = \<lparr>deviceId = ''4ea8dd11e8c4fbc1a2deadbeefa0fd3bbbb268c7'', deviceOSVersion = JUndefined,
          url = ''localhost:9222'', version = JStr ''11.5garbage''\<rparr>\<rparr>
     = Inr IOS9Protocol
   \<and> getProtocolFor (JStr ''7'')
       \<lparr>targetBased = False, metadata = \<lparr>deviceId = ''SIMULATOR'', deviceOSVersion = JUndefined,
          url = ''localhost:9222'', version = JStr ''7''\<rparr>\<rparr>
     = Inr IOS8Protocol
   \<and> getProtocolFor (JStr ''14'')
       \<lparr>targetBased = False, metadata = \<lparr>deviceId = ''SIMULATOR'', deviceOSVersion = JUndefined,
          url = ''localhost:9222'', version = JStr ''14''\<rparr>\<rparr>
     = Inr IOS13Protocol"
  using getProtocolFor_default
          [of "''abc''" "\<lparr>targetBased = False, metadata = \<lparr>deviceId = ''SIMULATOR'', deviceOSVersion = JUndefined,
          url = ''localhost:9222'', version = JStr ''abc''\<rparr>\<rparr>"]
        getProtocolFor_default
          [of "[]" "\<lparr>targetBased = False, metadata = \<lparr>deviceId = ''SIMULATOR'', deviceOSVersion = JUndefined,
          url = ''localhost:9222'', version = JStr []\<rparr>\<rparr>"]
        getProtocolFor_default
          [of "''13''" "\<lparr>targetBased = False, metadata = \<lparr>deviceId = ''4ea8dd11e8c4fbc1a2deadbeefa0fd3bbbb268c7'', deviceOSVersion = JUndefined,
          url = ''localhost:9222'', version = JStr ''13''\<rparr>\<rparr>"]
        getProtocolFor_default
          [of "''11.5garbage''" "\<lparr>targetBased = False, metadata = \<lparr>deviceId = ''4ea8dd11e8c4fbc1a2deadbeefa0fd3bbbb268c7'', deviceOSVersion = JUndefined,
          url = ''localhost:9222'', version = JStr ''11.5garbage''\<rparr>\<rparr>"]
        getProtocolFor_default
          [of "''7''" "\<lparr>targetBased = False, metadata = \<lparr>deviceId = ''SIMULATOR'', deviceOSVersion = JUndefined,
          url = ''localhost:9222'', version = JStr ''7''\<rparr>\<rparr>"]
        getProtocolFor_default
          [of "''14''" "\<lparr>targetBased = False, metadata = \<lparr>deviceId = ''SIMULATOR'', deviceOSVersion = JUndefined,
          url = ''localhost:9222'', version = JStr ''14''\<rparr>\<rparr>"]
        version_abc version_empty version_13 version_11_5garbage version_7 version_14
  by (simp add: num_ge_def num_le_def num_gt_def num_eq_def)

section \<open>Reading and writing properties\<close>

text \<open>
  \<open>o.k\<close> for the property names this code reads (\<open>result\<close>, \<open>properties\<close>, \<open>length\<close>,
  \<open>isOwn\<close>, \<open>nativeGetter\<close>, \<open>devices\<close>, \<open>runtimes\<close>, \<open>udid\<close>, \<open>identifier\<close>,
  \<open>version\<close>): none of them is inherited from a prototype, so apart from the \<open>length\<close>
  of an array or string only an object's own property gives a value. Reading a property
  of \<open>undefined\<close> or \<open>null\<close> throws a TypeError.
\<close>

fun get_prop :: "jsval \<Rightarrow> string \<Rightarrow> error + jsval" where
  "get_prop JUndefined k = Inl TypeError"
| "get_prop JNull k = Inl TypeError"
| "get_prop (JBool b) k = Inr JUndefined"
| "get_prop (JNum n) k = Inr JUndefined"
| "get_prop (JStr s) k =
     Inr (if k = ''length'' then JNum (Finite (of_nat (length s))) else JUndefined)"
| "get_prop (JArr xs) k =
     Inr (if k = ''length'' then JNum (Finite (of_nat (length xs))) else JUndefined)"
| "get_prop (JObj kvs) k = Inr (case map_of kvs k of None \<Rightarrow> JUndefined | Some v \<Rightarrow> v)"

text \<open>\<open>o[i]\<close> for a non-negative integer \<open>i\<close>; an object holds it under the key \<open>String(i)\<close>.\<close>

fun get_index :: "jsval \<Rightarrow> nat \<Rightarrow> error + jsval" where
  "get_index JUndefined i = Inl TypeError"
| "get_index JNull i = Inl TypeError"
| "get_index (JBool b) i = Inr JUndefined"
| "get_index (JNum n) i = Inr JUndefined"
| "get_index (JStr s) i = Inr (if i < length s then JStr [s ! i] else JUndefined)"
| "get_index (JArr xs) i = Inr (if i < length xs then xs ! i else JUndefined)"
| "get_index (JObj kvs) i = Inr (case map_of kvs (dec i) of None \<Rightarrow> JUndefined | Some v \<Rightarrow> v)"

text \<open>
  \<open>o.k = v\<close> on the property list of an object: an existing property keeps its place,
  a new one goes last.
\<close>

fun set_field :: "(string \<times> jsval) list \<Rightarrow> string \<Rightarrow> jsval \<Rightarrow> (string \<times> jsval) list" where
  "set_field [] k v = [(k, v)]"
| "set_field ((k', v') # ps) k v =
     (if k' = k then (k, v) # ps else (k', v') # set_field ps k v)"

text \<open>
  The container \<open>o\<close> after the object it holds at index \<open>i\<close> was changed in place to
  \<open>v\<close>. Strings, numbers and booleans hold no objects.
\<close>

fun set_index :: "jsval \<Rightarrow> nat \<Rightarrow> jsval \<Rightarrow> jsval" where
  "set_index (JArr xs) i v = JArr (xs[i := v])"
| "set_index (JObj kvs) i v = JObj (set_field kvs (dec i) v)"
| "set_index other i v = other"

subsection \<open>The loop test \<open>i < properties.length\<close>\<close>

definition num_less :: "nat \<Rightarrow> number \<Rightarrow> bool" where
  "num_less i n =
     (case n of NaN \<Rightarrow> False | Finite r \<Rightarrow> of_nat i < r | PosInfinity \<Rightarrow> True
      | NegInfinity \<Rightarrow> False)"

text \<open>
  \<open>i < v\<close> converts \<open>v\<close> to a number. On \<open>undefined\<close>, \<open>null\<close>, booleans and numbers the
  conversion is written out. On strings, arrays and objects it is the engine's
  \<open>ToNumber\<close>, which may also throw; it is the parameter \<open>coerce\<close>. The hook reaches it
  only for a property list that is a plain object whose \<open>length\<close> is itself a string,
  an array or an object.
\<close>

fun less_length :: "(jsval \<Rightarrow> error + number) \<Rightarrow> nat \<Rightarrow> jsval \<Rightarrow> error + bool" where
  "less_length coerce i JUndefined = Inr (num_less i NaN)"
| "less_length coerce i JNull = Inr (num_less i (Finite 0))"
| "less_length coerce i (JBool b) = Inr (num_less i (Finite (if b then 1 else 0)))"
| "less_length coerce i (JNum n) = Inr (num_less i n)"
| "less_length coerce i v =
     (case coerce v of Inl e \<Rightarrow> Inl e | Inr n \<Rightarrow> Inr (num_less i n))"

section \<open>IOS13Protocol (ios13.ts)\<close>

subsection \<open>Decimal keys are distinct\<close>

lemma digit_val_digit_char: "d < 10 \<Longrightarrow> digit_val (digit_char d) = d"
proof -
  assume "d < 10"
  then have "d \<in> {0, 1, 2, 3, 4, 5, 6, 7, 8, 9}" by auto
  then show ?thesis by (auto simp: digit_val_def digit_char_def)
qed

lemma digits_val_snoc: "digits_val (ds @ [c]) = 10 * digits_val ds + digit_val c"
  by (simp add: digits_val_def)

lemma digits_val_dec: "digits_val (dec n) = n"
proof (induction n rule: dec.induct)
  case (1 n)
  show ?case
  proof (cases "n < 10")
    case True
    then show ?thesis
      by (subst dec.simps) (simp add: digits_val_def digit_val_digit_char)
  next
    case False
    with "1" have "digits_val (dec (n div 10)) = n div 10" by simp
    with False show ?thesis
      by (subst dec.simps) (simp add: digits_val_snoc digit_val_digit_char)
  qed
qed

lemma inj_dec: "inj dec"
  by (rule inj_on_inverseI [where g = digits_val]) (rule digits_val_dec)

subsection \<open>The rewrite loop\<close>

text \<open>The indices at which a container holds something other than \<open>undefined\<close> or \<open>null\<close>.\<close>

definition live :: "jsval \<Rightarrow> nat \<Rightarrow> bool" where
  "live props j =
     (case get_index props j of Inl e \<Rightarrow> False
      | Inr v \<Rightarrow> v \<noteq> JUndefined \<and> v \<noteq> JNull)"

lemma map_of_set_field: "map_of (set_field kvs k v) = (map_of kvs)(k \<mapsto> v)"
  by (induction kvs) (auto simp: fun_eq_iff)

lemma finite_live: "finite {j. live props j}"
proof (cases props)
  case (JStr s)
  then have "{j. live props j} \<subseteq> {..<length s}"
    by (auto simp: live_def split: if_splits)
  then show ?thesis by (rule finite_subset) simp
next
  case (JArr xs)
  then have "{j. live props j} \<subseteq> {..<length xs}"
    by (auto simp: live_def split: if_splits)
  then show ?thesis by (rule finite_subset) simp
next
  case (JObj kvs)
  then have "{j. live props j} \<subseteq> dec -` dom (map_of kvs)"
    by (auto simp: live_def split: option.splits)
  moreover have "finite (dec -` dom (map_of kvs))"
    by (rule finite_vimageI [OF finite_dom_map_of inj_dec])
  ultimately show ?thesis by (rule finite_subset)
qed (simp_all add: live_def)

lemma live_set_index:
  assumes "j \<noteq> i"
  shows "live (set_index props i v) j = live props j"
proof (cases props)
  case (JObj kvs)
  from assms have "dec j \<noteq> dec i"
    using inj_dec by (auto dest: injD)
  with JObj show ?thesis
    by (simp add: live_def map_of_set_field)
qed (use assms in \<open>simp_all add: live_def\<close>)

lemma live_card_less:
  assumes "live props i" and "\<And>j. j \<noteq> i \<Longrightarrow> live props' j = live props j"
  shows "card {j. Suc i \<le> j \<and> live props' j} < card {j. i \<le> j \<and> live props j}"
proof (rule psubset_card_mono)
  show "finite {j. i \<le> j \<and> live props j}"
    using finite_live [of props] by simp
  have "{j. Suc i \<le> j \<and> live props' j} \<subseteq> {j. i \<le> j \<and> live props j}"
    using assms(2) by auto
  moreover have "i \<in> {j. i \<le> j \<and> live props j}" "i \<notin> {j. Suc i \<le> j \<and> live props' j}"
    using assms(1) by auto
  ultimately show "{j. Suc i \<le> j \<and> live props' j} \<subset> {j. i \<le> j \<and> live props j}"
    by blast
qed

text \<open>
  The body of the \<open>for\<close> loop, from index \<open>i\<close> on, with the descriptors collected so far.
  It returns the property list as the loop left it (entries are changed in place) and the
  collected descriptors, or the error thrown together with the property list at that
  moment. The assignment \<open>properties[i].isOwn = true\<close> is reached only for an object;
  on a string, number or boolean it would throw in strict mode.
\<close>

function rewrite_loop ::
  "(jsval \<Rightarrow> error + number) \<Rightarrow> jsval \<Rightarrow> nat \<Rightarrow> jsval list
     \<Rightarrow> (error \<times> jsval) + (jsval \<times> jsval list)" where
  "rewrite_loop coerce props i acc =
     (case get_prop props ''length'' of
        Inl e \<Rightarrow> Inl (e, props)
      | Inr len \<Rightarrow>
     (case less_length coerce i len of
        Inl e \<Rightarrow> Inl (e, props)
      | Inr below \<Rightarrow>
          if \<not> below then Inr (props, acc)
          else
     (case get_index props i of
        Inl e \<Rightarrow> Inl (e, props)
      | Inr entry \<Rightarrow>
     (case get_prop entry ''isOwn'' of
        Inl e \<Rightarrow> Inl (e, props)
      | Inr own \<Rightarrow>
     (case (if truthy own then Inr own else get_prop entry ''nativeGetter'') of
        Inl e \<Rightarrow> Inl (e, props)
      | Inr flag \<Rightarrow>
          if truthy flag then
            (case entry of
               JObj kvs \<Rightarrow>
                 (let entry' = JObj (set_field kvs ''isOwn'' (JBool True))
                  in rewrite_loop coerce (set_index props i entry') (Suc i) (acc @ [entry']))
             | _ \<Rightarrow> Inl (TypeError, props))
          else rewrite_loop coerce props (Suc i) acc)))))"
  by pat_completeness auto
termination
proof (relation "measure (\<lambda>(coerce, props, i, acc). card {j. i \<le> j \<and> live props j})")
  show "wf (measure (\<lambda>(coerce, props, i, acc). card {j. i \<le> j \<and> live props j}))"
    by simp
next
  fix coerce :: "jsval \<Rightarrow> error + number" and props i and acc :: "jsval list"
    and entry own kvs entry'
  assume "get_index props i = Inr entry" "get_prop entry ''isOwn'' = Inr own"
    "entry = JObj kvs"
  then have "live props i"
    by (auto simp: live_def)
  then have "card {j. Suc i \<le> j \<and> live (set_index props i entry') j}
               < card {j. i \<le> j \<and> live props j}"
    by (rule live_card_less) (simp add: live_set_index)
  then show "((coerce, set_index props i entry', Suc i, acc @ [entry']),
              (coerce, props, i, acc))
             \<in> measure (\<lambda>(coerce, props, i, acc). card {j. i \<le> j \<and> live props j})"
    by simp
next
  fix coerce :: "jsval \<Rightarrow> error + number" and props i and acc :: "jsval list"
    and entry own
  assume "get_index props i = Inr entry" "get_prop entry ''isOwn'' = Inr own"
  then have "live props i"
    by (cases entry) (auto simp: live_def)
  then have "card {j. Suc i \<le> j \<and> live props j} < card {j. i \<le> j \<and> live props j}"
    by (rule live_card_less) simp
  then show "((coerce, props, Suc i, acc), (coerce, props, i, acc))
             \<in> measure (\<lambda>(coerce, props, i, acc). card {j. i \<le> j \<and> live props j})"
    by simp
qed

declare rewrite_loop.simps [simp del]

subsection \<open>The hook \<open>onRuntimeGetProperties\<close>\<close>

datatype 'a promise = Resolved 'a | Rejected error

datatype log_entry = LogError error | LogValue jsval

text \<open>What a hook call can reach besides the frame: the target of its protocol and the console.\<close>

record runtime =
  protocol_target :: Target
  console :: "log_entry list"

text \<open>
  The frame as it stands while the loop runs: the property list, changed in place to
  \<open>props\<close>, sits either under \<open>msg.result.properties\<close> (\<open>nested\<close>) or is \<open>msg.result\<close>.
\<close>

definition frame_with :: "jsval \<Rightarrow> jsval \<Rightarrow> bool \<Rightarrow> jsval \<Rightarrow> jsval" where
  "frame_with msg result nested props =
     (case msg of
        JObj mkvs \<Rightarrow>
          JObj (set_field mkvs ''result''
                  (if nested
                   then (case result of
                           JObj rkvs \<Rightarrow> JObj (set_field rkvs ''properties'' props)
                         | _ \<Rightarrow> result)
                   else props))
      | _ \<Rightarrow> msg)"

text \<open>
  The \<open>try\<close> block: the rewritten frame, or the error thrown together with the frame as
  it stands then. The two assignments to \<open>msg.result\<close> are reached only when \<open>msg\<close> is an
  object (a read of \<open>result\<close> from anything else gives \<open>undefined\<close>, and the
  destructuring throws); on a string, number or boolean they would throw in strict mode.
\<close>

definition rewrite_body ::
  "(jsval \<Rightarrow> error + number) \<Rightarrow> jsval \<Rightarrow> (error \<times> jsval) + jsval" where
  "rewrite_body coerce msg =
     (case get_prop msg ''result'' of
        Inl e \<Rightarrow> Inl (e, msg)
      | Inr result \<Rightarrow>
     (case get_prop result ''properties'' of
        Inl e \<Rightarrow> Inl (e, msg)
      | Inr p \<Rightarrow>
          (let nested = truthy p;
               properties = (if nested then p else result)
           in case rewrite_loop coerce properties 0 [] of
                Inl (e, props) \<Rightarrow> Inl (e, frame_with msg result nested props)
              | Inr (props, newPropertyDescriptors) \<Rightarrow>
                  (case msg of
                     JObj mkvs \<Rightarrow>
                       Inr (JObj (set_field (set_field mkvs ''result'' JNull) ''result''
                                    (JObj [(''result'', JArr newPropertyDescriptors)])))
                   | _ \<Rightarrow> Inl (TypeError, msg)))))"

text \<open>
  The hook: the promise it returns and the state it leaves. The \<open>catch\<close> block logs the
  error and the frame; the function then returns \<open>Promise.resolve({})\<close>.
\<close>

definition onRuntimeGetProperties ::
  "(jsval \<Rightarrow> error + number) \<Rightarrow> jsval \<Rightarrow> runtime \<Rightarrow> jsval promise \<times> runtime" where
  "onRuntimeGetProperties coerce msg rt =
     (case rewrite_body coerce msg of
        Inr msg' \<Rightarrow> (Resolved msg', rt)
      | Inl (e, m) \<Rightarrow>
          (Resolved (JObj []), rt\<lparr>console := console rt @ [LogError e, LogValue m]\<rparr>))"

subsection \<open>The constructor\<close>

text \<open>
  \<open>super(target); target.targetBased = false\<close>. The constructor of the base class
  IOS12Protocol is not part of these sources: \<open>super\<close> is what it does to the target, or
  the error it throws.
\<close>

definition IOS13Protocol_constructor ::
  "(Target \<Rightarrow> error + Target) \<Rightarrow> Target \<Rightarrow> error + Target" where
  "IOS13Protocol_constructor super t =
     (case super t of
        Inl e \<Rightarrow> Inl e
      | Inr t' \<Rightarrow> Inr (t'\<lparr>targetBased := False\<rparr>))"

text \<open>
  Modelled from the spec: the constructor of IOS12Protocol, which these sources lack. An
  older generation needs the explicit attach step, so it sets the flag.
\<close>

definition IOS12Protocol_constructor :: "Target \<Rightarrow> error + Target" where
  "IOS12Protocol_constructor t = Inr (t\<lparr>targetBased := True\<rparr>)"

text \<open>
  Claim C6. Constructing IOS13Protocol for a target leaves the target's flag
  \<open>targetBased\<close> false, whatever it was and whatever the base constructor did with it;
  nothing else of the target changes after the base constructor. The flag is set in the
  constructor only: the hook \<open>onRuntimeGetProperties\<close> returns the target as it found it.
\<close>

theorem IOS13Protocol_constructor_targetBased:
  assumes "super t = Inr t'"
  shows "IOS13Protocol_constructor super t = Inr (t'\<lparr>targetBased := False\<rparr>)
         \<and> (\<forall>t''. IOS13Protocol_constructor super t = Inr t'' \<longrightarrow> \<not> targetBased t'')
         \<and> protocol_target (snd (onRuntimeGetProperties coerce msg rt)) = protocol_target rt"
  using assms
  by (auto simp: IOS13Protocol_constructor_def onRuntimeGetProperties_def
           split: sum.splits prod.splits)

theorem IOS13Protocol_constructor_targetBased_witness:
  "IOS13Protocol_constructor IOS12Protocol_constructor
       \<lparr>targetBased = True, metadata = \<lparr>deviceId = ''SIMULATOR'', deviceOSVersion = JUndefined,
          url = ''localhost:9222'', version = JStr ''13.4''\<rparr>\<rparr>
     = Inr \<lparr>targetBased = False, metadata = \<lparr>deviceId = ''SIMULATOR'', deviceOSVersion = JUndefined,
          url = ''localhost:9222'', version = JStr ''13.4''\<rparr>\<rparr>"
proof -
  have "IOS12Protocol_constructor
            \<lparr>targetBased = True, metadata = \<lparr>deviceId = ''SIMULATOR'', deviceOSVersion = JUndefined,
          url = ''localhost:9222'', version = JStr ''13.4''\<rparr>\<rparr>
          = Inr \<lparr>targetBased = True, metadata = \<lparr>deviceId = ''SIMULATOR'', deviceOSVersion = JUndefined,
          url = ''localhost:9222'', version = JStr ''13.4''\<rparr>\<rparr>"
    by (simp add: IOS12Protocol_constructor_def)
  from IOS13Protocol_constructor_targetBased
         [where super = IOS12Protocol_constructor
            and t = "\<lparr>targetBased = True, metadata = \<lparr>deviceId = ''SIMULATOR'', deviceOSVersion = JUndefined,
          url = ''localhost:9222'', version = JStr ''13.4''\<rparr>\<rparr>",
          OF this]
  show ?thesis
    by simp
qed

subsection \<open>The hook filters and normalises the property list\<close>

text \<open>
  The claim's words, on one entry: a flag is set when the entry is an object that holds a
  truthy value under that name; an entry is kept when \<open>isOwn\<close> or \<open>nativeGetter\<close> is set;
  a kept entry gets \<open>isOwn = true\<close>.
\<close>

definition flag_set :: "jsval \<Rightarrow> string \<Rightarrow> bool" where
  "flag_set e k =
     (case e of
        JObj kvs \<Rightarrow> (case map_of kvs k of None \<Rightarrow> False | Some v \<Rightarrow> truthy v)
      | _ \<Rightarrow> False)"

definition kept :: "jsval \<Rightarrow> bool" where
  "kept e = (flag_set e ''isOwn'' \<or> flag_set e ''nativeGetter'')"

definition mark_own :: "jsval \<Rightarrow> jsval" where
  "mark_own e = (case e of JObj kvs \<Rightarrow> JObj (set_field kvs ''isOwn'' (JBool True)) | _ \<Rightarrow> e)"

lemma rewrite_loop_done:
  "length ys \<le> i \<Longrightarrow> rewrite_loop coerce (JArr ys) i acc = Inr (JArr ys, acc)"
  by (subst rewrite_loop.simps) (simp add: num_less_def)

lemma rewrite_loop_skip:
  assumes "i < length ys" "ys ! i \<noteq> JNull" "ys ! i \<noteq> JUndefined" "\<not> kept (ys ! i)"
  shows "rewrite_loop coerce (JArr ys) i acc = rewrite_loop coerce (JArr ys) (Suc i) acc"
  using assms
  by (subst rewrite_loop.simps, cases "ys ! i")
     (auto simp: num_less_def kept_def flag_set_def split: option.splits)

lemma rewrite_loop_keep:
  assumes "i < length ys" "kept (ys ! i)"
  shows "rewrite_loop coerce (JArr ys) i acc
           = rewrite_loop coerce (JArr (ys[i := mark_own (ys ! i)])) (Suc i)
               (acc @ [mark_own (ys ! i)])"
  using assms
  by (subst rewrite_loop.simps, cases "ys ! i")
     (auto simp: num_less_def kept_def flag_set_def mark_own_def Let_def split: option.splits)

lemma rewrite_loop_throw:
  assumes "i < length ys" "ys ! i = JNull \<or> ys ! i = JUndefined"
  shows "rewrite_loop coerce (JArr ys) i acc = Inl (TypeError, JArr ys)"
  using assms
  by (subst rewrite_loop.simps) (auto simp: num_less_def)

text \<open>
  On an array without \<open>null\<close> entries the loop collects the kept entries, in order, each
  with \<open>isOwn = true\<close>.
\<close>

lemma rewrite_loop_array:
  assumes "\<forall>e\<in>set (drop i ys). e \<noteq> JNull \<and> e \<noteq> JUndefined"
  shows "\<exists>ys'. rewrite_loop coerce (JArr ys) i acc
                 = Inr (JArr ys', acc @ map mark_own (filter kept (drop i ys)))"
  using assms
proof (induction "length ys - i" arbitrary: i ys acc)
  case 0
  then show ?case by (simp add: rewrite_loop_done)
next
  case (Suc n)
  then have lt: "i < length ys" by simp
  then have d: "drop i ys = ys ! i # drop (Suc i) ys"
    by (simp add: Cons_nth_drop_Suc)
  with Suc.prems have nn: "ys ! i \<noteq> JNull" "ys ! i \<noteq> JUndefined"
    and rest: "\<forall>e\<in>set (drop (Suc i) ys). e \<noteq> JNull \<and> e \<noteq> JUndefined"
    by simp_all
  show ?case
  proof (cases "kept (ys ! i)")
    case True
    let ?ys = "ys[i := mark_own (ys ! i)]"
    have "n = length ?ys - Suc i" using Suc.hyps(2) by simp
    moreover have dd: "drop (Suc i) ?ys = drop (Suc i) ys" by simp
    ultimately obtain ys' where
      "rewrite_loop coerce (JArr ?ys) (Suc i) (acc @ [mark_own (ys ! i)])
         = Inr (JArr ys',
                (acc @ [mark_own (ys ! i)]) @ map mark_own (filter kept (drop (Suc i) ?ys)))"
      using Suc.hyps(1) [of ?ys "Suc i" "acc @ [mark_own (ys ! i)]"] rest by auto
    with True lt d dd show ?thesis
      by (simp add: rewrite_loop_keep)
  next
    case False
    have "n = length ys - Suc i" using Suc.hyps(2) by simp
    then obtain ys' where
      "rewrite_loop coerce (JArr ys) (Suc i) acc
         = Inr (JArr ys', acc @ map mark_own (filter kept (drop (Suc i) ys)))"
      using Suc.hyps(1) [of ys "Suc i" acc] rest by auto
    with False lt d nn show ?thesis
      by (simp add: rewrite_loop_skip)
  qed
qed

text \<open>A \<open>null\<close> entry makes the loop throw when it gets there.\<close>

lemma rewrite_loop_null:
  assumes "JNull \<in> set (drop i ys)"
  shows "\<exists>ys'. rewrite_loop coerce (JArr ys) i acc = Inl (TypeError, JArr ys')"
  using assms
proof (induction "length ys - i" arbitrary: i ys acc)
  case 0
  then show ?case by simp
next
  case (Suc n)
  then have lt: "i < length ys" by simp
  then have d: "drop i ys = ys ! i # drop (Suc i) ys"
    by (simp add: Cons_nth_drop_Suc)
  show ?case
  proof (cases "ys ! i = JNull \<or> ys ! i = JUndefined")
    case True
    with lt show ?thesis by (simp add: rewrite_loop_throw)
  next
    case False
    with d Suc.prems have rest: "JNull \<in> set (drop (Suc i) ys)" by auto
    show ?thesis
    proof (cases "kept (ys ! i)")
      case True
      let ?ys = "ys[i := mark_own (ys ! i)]"
      have "n = length ?ys - Suc i" using Suc.hyps(2) by simp
      moreover have "drop (Suc i) ?ys = drop (Suc i) ys" by simp
      ultimately have
        "\<exists>ys'. rewrite_loop coerce (JArr ?ys) (Suc i) (acc @ [mark_own (ys ! i)])
                 = Inl (TypeError, JArr ys')"
        using Suc.hyps(1) [of ?ys "Suc i" "acc @ [mark_own (ys ! i)]"] rest by auto
      with True lt show ?thesis
        by (simp add: rewrite_loop_keep)
    next
      case nk: False
      have "n = length ys - Suc i" using Suc.hyps(2) by simp
      then have "\<exists>ys'. rewrite_loop coerce (JArr ys) (Suc i) acc = Inl (TypeError, JArr ys')"
        using Suc.hyps(1) [of ys "Suc i" acc] rest by auto
      with nk False lt show ?thesis
        by (simp add: rewrite_loop_skip)
    qed
  qed
qed

lemma set_field_twice: "set_field (set_field kvs k u) k v = set_field kvs k v"
  by (induction kvs) auto

text \<open>
  Claim C1. Let the frame be an object whose \<open>result\<close> is either the bare array \<open>xs\<close> of
  property descriptors or an object holding \<open>xs\<close> under \<open>properties\<close>, no entry of \<open>xs\<close>
  being \<open>null\<close>. The hook resolves with the frame in which \<open>result\<close> is replaced by
  \<open>{ result: ys }\<close>, where \<open>ys\<close> is \<open>xs\<close> restricted to the entries whose \<open>isOwn\<close> or
  \<open>nativeGetter\<close> is set, in their order, each with \<open>isOwn = true\<close>. Every other field of
  the frame stays, and nothing is logged.
\<close>

theorem onRuntimeGetProperties_filters:
  assumes "map_of mkvs ''result'' = Some result"
    and "result = JArr xs \<or> result = JObj rkvs \<and> map_of rkvs ''properties'' = Some (JArr xs)"
    and "\<forall>e\<in>set xs. e \<noteq> JNull \<and> e \<noteq> JUndefined"
  shows "onRuntimeGetProperties coerce (JObj mkvs) rt
           = (Resolved (JObj (set_field mkvs ''result''
                                (JObj [(''result'', JArr (map mark_own (filter kept xs)))]))),
              rt)"
proof -
  from assms(3) obtain ys' where
    loop: "rewrite_loop coerce (JArr xs) 0 [] = Inr (JArr ys', map mark_own (filter kept xs))"
    using rewrite_loop_array [of 0 xs coerce "[]"] by auto
  from assms(2) have "rewrite_body coerce (JObj mkvs)
      = Inr (JObj (set_field mkvs ''result''
                     (JObj [(''result'', JArr (map mark_own (filter kept xs)))])))"
  proof
    assume "result = JArr xs"
    with assms(1) loop show ?thesis
      by (simp add: rewrite_body_def set_field_twice)
  next
    assume "result = JObj rkvs \<and> map_of rkvs ''properties'' = Some (JArr xs)"
    with assms(1) loop show ?thesis
      by (simp add: rewrite_body_def set_field_twice)
  qed
  then show ?thesis
    by (simp add: onRuntimeGetProperties_def)
qed

theorem onRuntimeGetProperties_filters_witness:
  "onRuntimeGetProperties (\<lambda>v. Inr NaN)
      (JObj [(''id'', JNum (Finite 7)),
             (''result'', JObj [(''properties'',
                JArr [JObj [(''isOwn'', JBool True)],
                      JObj [(''nativeGetter'', JBool True)],
                      JObj [(''other'', JBool True)]])])])
      \<lparr>protocol_target = \<lparr>targetBased = False, metadata = \<lparr>deviceId = ''SIMULATOR'', deviceOSVersion = JUndefined,
          url = ''localhost:9222'', version = JStr ''13.4''\<rparr>\<rparr>,
       console = []\<rparr>
    = (Resolved
        (JObj [(''id'', JNum (Finite 7)),
               (''result'', JObj [(''result'',
                  JArr [JObj [(''isOwn'', JBool True)],
                        JObj [(''nativeGetter'', JBool True), (''isOwn'', JBool True)]])])]),
       \<lparr>protocol_target = \<lparr>targetBased = False, metadata = \<lparr>deviceId = ''SIMULATOR'', deviceOSVersion = JUndefined,
          url = ''localhost:9222'', version = JStr ''13.4''\<rparr>\<rparr>,
        console = []\<rparr>)
   \<and> onRuntimeGetProperties (\<lambda>v. Inr NaN)
      (JObj [(''id'', JNum (Finite 8)),
             (''result'',
                JArr [JObj [(''name'', JStr ''x''), (''isOwn'', JBool False),
                            (''nativeGetter'', JBool True)],
                      JObj [(''name'', JStr ''y'')],
                      JStr ''z''])])
      \<lparr>protocol_target = \<lparr>targetBased = False, metadata = \<lparr>deviceId = ''SIMULATOR'', deviceOSVersion = JUndefined,
          url = ''localhost:9222'', version = JStr ''13.4''\<rparr>\<rparr>,
       console = []\<rparr>
    = (Resolved
        (JObj [(''id'', JNum (Finite 8)),
               (''result'', JObj [(''result'',
                  JArr [JObj [(''name'', JStr ''x''), (''isOwn'', JBool True),
                              (''nativeGetter'', JBool True)]])])]),
       \<lparr>protocol_target = \<lparr>targetBased = False, metadata = \<lparr>deviceId = ''SIMULATOR'', deviceOSVersion = JUndefined,
          url = ''localhost:9222'', version = JStr ''13.4''\<rparr>\<rparr>,
        console = []\<rparr>)"
  using onRuntimeGetProperties_filters
    [of "[(''id'', JNum (Finite 7)),
          (''result'', JObj [(''properties'',
             JArr [JObj [(''isOwn'', JBool True)],
                   JObj [(''nativeGetter'', JBool True)],
                   JObj [(''other'', JBool True)]])])]"
        "JObj [(''properties'',
             JArr [JObj [(''isOwn'', JBool True)],
                   JObj [(''nativeGetter'', JBool True)],
                   JObj [(''other'', JBool True)]])]"
        "[JObj [(''isOwn'', JBool True)],
          JObj [(''nativeGetter'', JBool True)],
          JObj [(''other'', JBool True)]]"
        "[(''properties'',
             JArr [JObj [(''isOwn'', JBool True)],
                   JObj [(''nativeGetter'', JBool True)],
                   JObj [(''other'', JBool True)]])]"
        "\<lambda>v. Inr NaN"
        "\<lparr>protocol_target = \<lparr>targetBased = False, metadata = \<lparr>deviceId = ''SIMULATOR'', deviceOSVersion = JUndefined,
          url = ''localhost:9222'', version = JStr ''13.4''\<rparr>\<rparr>,
          console = []\<rparr>"]
    onRuntimeGetProperties_filters
    [of "[(''id'', JNum (Finite 8)),
          (''result'',
             JArr [JObj [(''name'', JStr ''x''), (''isOwn'', JBool False),
                         (''nativeGetter'', JBool True)],
                   JObj [(''name'', JStr ''y'')],
                   JStr ''z''])]"
        "JArr [JObj [(''name'', JStr ''x''), (''isOwn'', JBool False),
                     (''nativeGetter'', JBool True)],
               JObj [(''name'', JStr ''y'')],
               JStr ''z'']"
        "[JObj [(''name'', JStr ''x''), (''isOwn'', JBool False),
                (''nativeGetter'', JBool True)],
          JObj [(''name'', JStr ''y'')],
          JStr ''z'']"
        "[]"
        "\<lambda>v. Inr NaN"
        "\<lparr>protocol_target = \<lparr>targetBased = False, metadata = \<lparr>deviceId = ''SIMULATOR'', deviceOSVersion = JUndefined,
          url = ''localhost:9222'', version = JStr ''13.4''\<rparr>\<rparr>,
          console = []\<rparr>"]
  by (simp add: kept_def flag_set_def mark_own_def)

subsection \<open>The hook never throws\<close>

lemma rewrite_body_result_absent:
  assumes "get_prop msg ''result'' \<in> {Inl TypeError, Inr JUndefined, Inr JNull}"
  shows "rewrite_body coerce msg = Inl (TypeError, msg)"
  using assms by (auto simp: rewrite_body_def)

lemma rewrite_body_null_entry:
  assumes "map_of mkvs ''result'' = Some (JArr xs)" and "JNull \<in> set xs"
  shows "\<exists>m. rewrite_body coerce (JObj mkvs) = Inl (TypeError, m)"
proof -
  from assms(2) obtain ys' where
    "rewrite_loop coerce (JArr xs) 0 [] = Inl (TypeError, JArr ys')"
    using rewrite_loop_null [of 0 xs coerce "[]"] by auto
  with assms(1) show ?thesis
    by (simp add: rewrite_body_def)
qed

text \<open>
  Claim C5. The hook always returns a resolved promise: it neither throws nor rejects nor
  stays pending. Whenever its rewrite logic throws an error \<open>e\<close>, with the frame standing
  as \<open>m\<close>, the hook resolves with the empty envelope \<open>{}\<close> and has logged \<open>e\<close> and \<open>m\<close>, in
  this order, changing nothing else. This is what happens when the frame is \<open>null\<close> or
  lacks a \<open>result\<close> (or holds \<open>null\<close> there): the error is a TypeError and the frame is
  logged as it came.
\<close>

theorem onRuntimeGetProperties_catches:
  "(\<exists>v. fst (onRuntimeGetProperties coerce msg rt) = Resolved v)
   \<and> (rewrite_body coerce msg = Inl (e, m) \<longrightarrow>
        onRuntimeGetProperties coerce msg rt
          = (Resolved (JObj []), rt\<lparr>console := console rt @ [LogError e, LogValue m]\<rparr>))
   \<and> (get_prop msg ''result'' \<in> {Inl TypeError, Inr JUndefined, Inr JNull} \<longrightarrow>
        onRuntimeGetProperties coerce msg rt
          = (Resolved (JObj []),
             rt\<lparr>console := console rt @ [LogError TypeError, LogValue msg]\<rparr>))"
proof (intro conjI impI)
  show "\<exists>v. fst (onRuntimeGetProperties coerce msg rt) = Resolved v"
    by (cases "rewrite_body coerce msg") (auto simp: onRuntimeGetProperties_def)
next
  assume "rewrite_body coerce msg = Inl (e, m)"
  then show "onRuntimeGetProperties coerce msg rt
               = (Resolved (JObj []), rt\<lparr>console := console rt @ [LogError e, LogValue m]\<rparr>)"
    by (simp add: onRuntimeGetProperties_def)
next
  assume "get_prop msg ''result'' \<in> {Inl TypeError, Inr JUndefined, Inr JNull}"
  then have "rewrite_body coerce msg = Inl (TypeError, msg)"
    by (rule rewrite_body_result_absent)
  then show "onRuntimeGetProperties coerce msg rt
               = (Resolved (JObj []),
                  rt\<lparr>console := console rt @ [LogError TypeError, LogValue msg]\<rparr>)"
    by (simp add: onRuntimeGetProperties_def)
qed

lemma rewrite_body_example:
  "rewrite_body (\<lambda>v. Inr NaN)
      (JObj [(''id'', JNum (Finite 9)),
             (''result'', JArr [JObj [(''nativeGetter'', JBool True)], JNull])])
    = Inl (TypeError,
           JObj [(''id'', JNum (Finite 9)),
                 (''result'', JArr [JObj [(''nativeGetter'', JBool True),
                                          (''isOwn'', JBool True)], JNull])])"
  by (simp add: rewrite_body_def rewrite_loop.simps num_less_def frame_with_def)

theorem onRuntimeGetProperties_catches_witness:
  "onRuntimeGetProperties (\<lambda>v. Inr NaN) (JObj [(''id'', JNum (Finite 9))])
      \<lparr>protocol_target = \<lparr>targetBased = False, metadata = \<lparr>deviceId = ''SIMULATOR'', deviceOSVersion = JUndefined,
          url = ''localhost:9222'', version = JStr ''13.4''\<rparr>\<rparr>,
       console = []\<rparr>
    = (Resolved (JObj []),
       \<lparr>protocol_target = \<lparr>targetBased = False, metadata = \<lparr>deviceId = ''SIMULATOR'', deviceOSVersion = JUndefined,
          url = ''localhost:9222'', version = JStr ''13.4''\<rparr>\<rparr>,
        console = [LogError TypeError, LogValue (JObj [(''id'', JNum (Finite 9))])]\<rparr>)
   \<and> onRuntimeGetProperties (\<lambda>v. Inr NaN)
      (JObj [(''id'', JNum (Finite 9)),
             (''result'', JArr [JObj [(''nativeGetter'', JBool True)], JNull])])
      \<lparr>protocol_target = \<lparr>targetBased = False, metadata = \<lparr>deviceId = ''SIMULATOR'', deviceOSVersion = JUndefined,
          url = ''localhost:9222'', version = JStr ''13.4''\<rparr>\<rparr>,
       console = []\<rparr>
    = (Resolved (JObj []),
       \<lparr>protocol_target = \<lparr>targetBased = False, metadata = \<lparr>deviceId = ''SIMULATOR'', deviceOSVersion = JUndefined,
          url = ''localhost:9222'', version = JStr ''13.4''\<rparr>\<rparr>,
        console = [LogError TypeError,
                   LogValue (JObj [(''id'', JNum (Finite 9)),
                                   (''result'', JArr [JObj [(''nativeGetter'', JBool True),
                                                            (''isOwn'', JBool True)],
                                                      JNull])])]\<rparr>)"
  using onRuntimeGetProperties_catches
    [of "\<lambda>v. Inr NaN" "JObj [(''id'', JNum (Finite 9))]"
        "\<lparr>protocol_target = \<lparr>targetBased = False, metadata = \<lparr>deviceId = ''SIMULATOR'', deviceOSVersion = JUndefined,
          url = ''localhost:9222'', version = JStr ''13.4''\<rparr>\<rparr>,
          console = []\<rparr>"
        TypeError "JObj [(''id'', JNum (Finite 9))]"]
    onRuntimeGetProperties_catches
    [of "\<lambda>v. Inr NaN"
        "JObj [(''id'', JNum (Finite 9)),
               (''result'', JArr [JObj [(''nativeGetter'', JBool True)], JNull])]"
        "\<lparr>protocol_target = \<lparr>targetBased = False, metadata = \<lparr>deviceId = ''SIMULATOR'', deviceOSVersion = JUndefined,
          url = ''localhost:9222'', version = JStr ''13.4''\<rparr>\<rparr>,
          console = []\<rparr>"
        TypeError
        "JObj [(''id'', JNum (Finite 9)),
               (''result'', JArr [JObj [(''nativeGetter'', JBool True),
                                        (''isOwn'', JBool True)], JNull])]"]
    rewrite_body_example
  by simp

section \<open>IOSAdapter: discovery and connection (iosAdapter.ts)\<close>

subsection \<open>\<open>getSimulatorVersion\<close>\<close>

text \<open>\<open>s.includes(sub)\<close>: \<open>sub\<close> occurs in \<open>s\<close>.\<close>

fun str_includes :: "string \<Rightarrow> string \<Rightarrow> bool" where
  "str_includes [] sub = (sub = [])"
| "str_includes (c # cs) sub = (take (length sub) (c # cs) = sub \<or> str_includes cs sub)"

text \<open>\<open>Object.entries(o)\<close>; it throws on \<open>undefined\<close> and \<open>null\<close>.\<close>

fun object_entries :: "jsval \<Rightarrow> error + (string \<times> jsval) list" where
  "object_entries JUndefined = Inl TypeError"
| "object_entries JNull = Inl TypeError"
| "object_entries (JBool b) = Inr []"
| "object_entries (JNum n) = Inr []"
| "object_entries (JStr s) = Inr (zip (map dec [0..<length s]) (map (\<lambda>c. JStr [c]) s))"
| "object_entries (JArr xs) = Inr (zip (map dec [0..<length xs]) xs)"
| "object_entries (JObj kvs) = Inr kvs"

text \<open>
  \<open>runtimes.find(rt => rt.identifier === type)\<close>: the first matching element, or
  \<open>undefined\<close>. Only an array has a callable \<open>find\<close>.
\<close>

fun find_identifier :: "jsval list \<Rightarrow> string \<Rightarrow> error + jsval" where
  "find_identifier [] ty = Inr JUndefined"
| "find_identifier (rt # rts) ty =
     (case get_prop rt ''identifier'' of
        Inl e \<Rightarrow> Inl e
      | Inr i \<Rightarrow> if i = JStr ty then Inr rt else find_identifier rts ty)"

definition runtimes_find :: "jsval \<Rightarrow> string \<Rightarrow> error + jsval" where
  "runtimes_find runtimes ty =
     (case runtimes of JArr rts \<Rightarrow> find_identifier rts ty | _ \<Rightarrow> Inl TypeError)"

text \<open>The inner loop \<open>for (const val of vals)\<close>; it gives the value of \<open>iosVersion\<close> after it.\<close>

fun scan_vals :: "jsval \<Rightarrow> string \<Rightarrow> string \<Rightarrow> jsval list \<Rightarrow> jsval \<Rightarrow> error + jsval" where
  "scan_vals runtimes ty udid [] iosVersion = Inr iosVersion"
| "scan_vals runtimes ty udid (val # vals) iosVersion =
     (case get_prop val ''udid'' of
        Inl e \<Rightarrow> Inl e
      | Inr u \<Rightarrow>
          if u = JStr udid then
            (case runtimes_find runtimes ty of
               Inl e \<Rightarrow> Inl e
             | Inr runtime \<Rightarrow> get_prop runtime ''version'')
          else scan_vals runtimes ty udid vals iosVersion)"

text \<open>The outer loop over \<open>Object.entries(devices)\<close>.\<close>

fun scan_devices ::
  "jsval \<Rightarrow> string \<Rightarrow> (string \<times> jsval) list \<Rightarrow> jsval \<Rightarrow> error + jsval" where
  "scan_devices runtimes udid [] iosVersion = Inr iosVersion"
| "scan_devices runtimes udid ((ty, vals) # rest) iosVersion =
     (if \<not> str_includes ty ''SimRuntime.iOS'' then scan_devices runtimes udid rest iosVersion
      else
        (case vals of
           JArr vs \<Rightarrow>
             (case scan_vals runtimes ty udid vs iosVersion of
                Inl e \<Rightarrow> Inl e
              | Inr v \<Rightarrow> if truthy v then Inr v else scan_devices runtimes udid rest v)
         | _ \<Rightarrow> scan_devices runtimes udid rest iosVersion))"

text \<open>
  The \<open>try\<close> block. \<open>listing\<close> is what \<open>JSON.parse\<close> makes of the output of
  \<open>xcrun simctl list --json\<close>, or the error when the command or the parse fails.
\<close>

definition simctl_version :: "error + jsval \<Rightarrow> string \<Rightarrow> error + jsval" where
  "simctl_version listing udid =
     (case listing of
        Inl e \<Rightarrow> Inl e
      | Inr parsed \<Rightarrow>
     (case get_prop parsed ''devices'' of
        Inl e \<Rightarrow> Inl e
      | Inr devices \<Rightarrow>
     (case get_prop parsed ''runtimes'' of
        Inl e \<Rightarrow> Inl e
      | Inr runtimes \<Rightarrow>
     (case object_entries devices of
        Inl e \<Rightarrow> Inl e
      | Inr entries \<Rightarrow> scan_devices runtimes udid entries JUndefined))))"

text \<open>
  \<open>getSimulatorVersion(udid)\<close> on the cache \<open>_simulatorVersionMap\<close>: the version and the
  cache afterwards. The command runs only when the cache has no entry.
\<close>

definition getSimulatorVersion ::
  "error + jsval \<Rightarrow> string \<Rightarrow> (string \<rightharpoonup> jsval) \<Rightarrow> jsval \<times> (string \<rightharpoonup> jsval)" where
  "getSimulatorVersion listing udid cache =
     (case cache udid of
        Some v \<Rightarrow> (v, cache)
      | None \<Rightarrow>
          (let iosVersion = (case simctl_version listing udid of
                               Inl e \<Rightarrow> JStr ''9.3.0''
                             | Inr v \<Rightarrow> v)
           in (iosVersion, cache(udid \<mapsto> iosVersion))))"

subsection \<open>\<open>getTargets\<close>\<close>

text \<open>
  An Adapter, as \<open>new Adapter(adapterId, this._proxyUrl, { port: port })\<close> makes it.
  The port is kept as the integer that \<open>parseInt\<close> reads, or nothing for NaN; the code
  holds that integer rounded to a double, which is the same number below \<open>2^53\<close> and so
  for every port number.
\<close>

record Adapter =
  adapter_id :: string
  adapter_url :: string
  port :: "int option"

text \<open>
  The state of an IOSAdapter: its id, proxy URL and simulator udid, the map \<open>_adapters\<close>
  of its base class, \<open>_simulatorVersionMap\<close> and \<open>_protocolMap\<close> (keyed by the identity
  of a Target, a reference into \<open>targets\<close>). Two histories are kept beside them: the
  adapters constructed and started, and the protocols constructed, in order.
\<close>

record IOSAdapter =
  collection_id :: string
  proxyUrl :: string
  simUdid :: string
  adapters :: "string \<rightharpoonup> Adapter"
  simulatorVersionMap :: "string \<rightharpoonup> jsval"
  protocolMap :: "nat \<rightharpoonup> IOSProtocol"
  targets :: "nat \<Rightarrow> Target"
  started :: "Adapter list"
  constructed :: "(nat \<times> IOSProtocol) list"

definition adapterId_of :: "IOSAdapter \<Rightarrow> IIOSDeviceTarget \<Rightarrow> string" where
  "adapterId_of s d = collection_id s @ ''_'' @ deviceId d"

text \<open>The body of the loop over the raw device records: the record pushed and the new state.\<close>

definition discover_device ::
  "error + jsval \<Rightarrow> IIOSDeviceTarget \<Rightarrow> IOSAdapter \<Rightarrow> IIOSDeviceTarget \<times> IOSAdapter" where
  "discover_device listing d s =
     (let (v, cache) =
            (if deviceId d = ''SIMULATOR''
               then getSimulatorVersion listing (simUdid s) (simulatorVersionMap s)
             else if truthy (deviceOSVersion d)
               then (deviceOSVersion d, simulatorVersionMap s)
             else (JStr ''9.3.0'', simulatorVersionMap s));
          d' = d\<lparr>version := v\<rparr>;
          s' = s\<lparr>simulatorVersionMap := cache\<rparr>;
          adapterId = adapterId_of s d
      in if adapters s' adapterId = None then
           (let parts = split_on CHR '':'' (url d) in
            if length parts > 1 then
              (let adapter = \<lparr>adapter_id = adapterId, adapter_url = proxyUrl s,
                              port = parseInt10 (part_string parts 1)\<rparr>
               in (d', s'\<lparr>adapters := (adapters s')(adapterId \<mapsto> adapter),
                          started := started s' @ [adapter]\<rparr>))
            else (d', s'))
         else (d', s'))"

fun discover_all ::
  "error + jsval \<Rightarrow> IIOSDeviceTarget list \<Rightarrow> IIOSDeviceTarget list \<Rightarrow> IOSAdapter
     \<Rightarrow> IIOSDeviceTarget list \<times> IOSAdapter" where
  "discover_all listing [] devices s = (devices, s)"
| "discover_all listing (d # ds) devices s =
     (case discover_device listing d s of
        (d', s') \<Rightarrow> discover_all listing ds (devices @ [d']) s')"

text \<open>
  \<open>getTargets()\<close>. \<open>discovery\<close> is the list of raw device records the proxy answers with,
  or the error when the request or the parse fails; that error is swallowed. The records
  are taken at their declared type: one without a string device id or URL, on which the
  loop would throw and the pass end early, is not a value of it. The result
  is the list \<open>devices\<close> handed to \<open>super.getTargets\<close>, which is not part of these sources,
  and the new state.
\<close>

definition getTargets ::
  "error + IIOSDeviceTarget list \<Rightarrow> error + jsval \<Rightarrow> IOSAdapter
     \<Rightarrow> IIOSDeviceTarget list \<times> IOSAdapter" where
  "getTargets discovery listing s =
     (case discovery of
        Inl e \<Rightarrow> ([], s)
      | Inr rawDevices \<Rightarrow> discover_all listing rawDevices [] s)"

subsection \<open>\<open>connectTo\<close>\<close>

text \<open>
  What \<open>new P(target)\<close> does to the target. Only the constructor of IOS13Protocol is part
  of these sources; \<open>base\<close> stands for the constructors of the other three classes.
\<close>

definition new_protocol ::
  "(IOSProtocol \<Rightarrow> Target \<Rightarrow> error + Target) \<Rightarrow> IOSProtocol \<Rightarrow> Target \<Rightarrow> error + Target" where
  "new_protocol base p t =
     (if p = IOS13Protocol then IOS13Protocol_constructor (base IOS12Protocol) t
      else base p t)"

text \<open>
  \<open>connectTo(url, wsFrom)\<close>. \<open>found\<close> is what \<open>super.connectTo(url, wsFrom)\<close> returns: a
  reference to a Target, or nothing; or the error it throws.
\<close>

definition connectTo ::
  "(IOSProtocol \<Rightarrow> Target \<Rightarrow> error + Target) \<Rightarrow> error + nat option \<Rightarrow> string \<Rightarrow> IOSAdapter
     \<Rightarrow> error + nat \<times> IOSAdapter" where
  "connectTo base found u s =
     (case found of
        Inl e \<Rightarrow> Inl e
      | Inr None \<Rightarrow> Inl (Error (''Target not found for '' @ u))
      | Inr (Some r) \<Rightarrow>
          if protocolMap s r = None then
            (let target = targets s r;
                 ver = version (metadata target)
             in case getProtocolFor ver target of
                  Inl e \<Rightarrow> Inl e
                | Inr protocol \<Rightarrow>
                    (case new_protocol base protocol target of
                       Inl e \<Rightarrow> Inl e
                     | Inr target' \<Rightarrow>
                         Inr (r, s\<lparr>targets := (targets s)(r := target'),
                                   protocolMap := (protocolMap s)(r \<mapsto> protocol),
                                   constructed := constructed s @ [(r, protocol)]\<rparr>)))
          else Inr (r, s))"

section \<open>Discovery: properties\<close>

text \<open>
  A device record is settled in a state when \<open>getTargets\<close> has nothing to create for it:
  its adapter id is tracked, or its URL has no port part.
\<close>

definition tracked_or_portless :: "IOSAdapter \<Rightarrow> IIOSDeviceTarget \<Rightarrow> bool" where
  "tracked_or_portless s d =
     (adapters s (adapterId_of s d) \<noteq> None \<or> length (split_on CHR '':'' (url d)) \<le> 1)"

text \<open>
  The adapters started so far have distinct ids, and each id is tracked in \<open>_adapters\<close>.
\<close>

definition one_adapter_each :: "IOSAdapter \<Rightarrow> bool" where
  "one_adapter_each s =
     (distinct (map adapter_id (started s))
      \<and> (\<forall>a\<in>set (started s). adapters s (adapter_id a) \<noteq> None))"

lemma discover_device_fields:
  "collection_id (snd (discover_device listing d s)) = collection_id s"
  "proxyUrl (snd (discover_device listing d s)) = proxyUrl s"
  "simUdid (snd (discover_device listing d s)) = simUdid s"
  "protocolMap (snd (discover_device listing d s)) = protocolMap s"
  "constructed (snd (discover_device listing d s)) = constructed s"
  by (simp_all add: discover_device_def Let_def split_def)

lemma discover_device_keeps:
  "adapters s k = Some a \<Longrightarrow> adapters (snd (discover_device listing d s)) k = Some a"
  by (auto simp: discover_device_def Let_def split_def)

lemma discover_device_settles:
  "tracked_or_portless (snd (discover_device listing d s)) d"
  by (auto simp: discover_device_def Let_def split_def tracked_or_portless_def adapterId_of_def)

lemma discover_device_settled:
  assumes "tracked_or_portless s d"
  shows "adapters (snd (discover_device listing d s)) = adapters s"
    and "started (snd (discover_device listing d s)) = started s"
  using assms
  by (auto simp: discover_device_def Let_def split_def tracked_or_portless_def)

lemma discover_device_stays_settled:
  assumes "tracked_or_portless s d'"
  shows "tracked_or_portless (snd (discover_device listing d s)) d'"
  using assms discover_device_keeps [of s _ _ listing d]
  by (auto simp: tracked_or_portless_def adapterId_of_def discover_device_fields)

lemma discover_device_one_each:
  assumes "one_adapter_each s"
  shows "one_adapter_each (snd (discover_device listing d s))"
  using assms
  by (auto simp: discover_device_def Let_def split_def one_adapter_each_def)

lemma discover_all_keeps:
  "adapters s k = Some a \<Longrightarrow> adapters (snd (discover_all listing ds devs s)) k = Some a"
proof (induction ds arbitrary: devs s)
  case Nil
  then show ?case by simp
next
  case (Cons d ds)
  from Cons.prems have "adapters (snd (discover_device listing d s)) k = Some a"
    by (rule discover_device_keeps)
  then show ?case
    using Cons.IH by (simp add: split_def)
qed

lemma discover_all_stays_settled:
  "tracked_or_portless s d' \<Longrightarrow> tracked_or_portless (snd (discover_all listing ds devs s)) d'"
proof (induction ds arbitrary: devs s)
  case Nil
  then show ?case by simp
next
  case (Cons d ds)
  from Cons.prems have "tracked_or_portless (snd (discover_device listing d s)) d'"
    by (rule discover_device_stays_settled)
  then show ?case
    using Cons.IH by (simp add: split_def)
qed

lemma discover_all_settles:
  "\<forall>d\<in>set ds. tracked_or_portless (snd (discover_all listing ds devs s)) d"
proof (induction ds arbitrary: devs s)
  case Nil
  then show ?case by simp
next
  case (Cons d ds)
  have "tracked_or_portless (snd (discover_device listing d s)) d"
    by (rule discover_device_settles)
  then have "tracked_or_portless
               (snd (discover_all listing ds (devs @ [fst (discover_device listing d s)])
                       (snd (discover_device listing d s)))) d"
    by (rule discover_all_stays_settled)
  with Cons.IH show ?case
    by (simp add: split_def)
qed

lemma discover_all_settled:
  assumes "\<forall>d\<in>set ds. tracked_or_portless s d"
  shows "adapters (snd (discover_all listing ds devs s)) = adapters s
         \<and> started (snd (discover_all listing ds devs s)) = started s"
  using assms
proof (induction ds arbitrary: devs s)
  case Nil
  then show ?case by simp
next
  case (Cons d ds)
  let ?s = "snd (discover_device listing d s)"
  from Cons.prems have same: "adapters ?s = adapters s" "started ?s = started s"
    by (simp_all add: discover_device_settled)
  from Cons.prems have "\<forall>d'\<in>set ds. tracked_or_portless ?s d'"
    by (simp add: discover_device_stays_settled)
  from Cons.IH [OF this] same show ?case
    by (simp add: split_def)
qed

lemma discover_all_one_each:
  "one_adapter_each s \<Longrightarrow> one_adapter_each (snd (discover_all listing ds devs s))"
proof (induction ds arbitrary: devs s)
  case Nil
  then show ?case by simp
next
  case (Cons d ds)
  from Cons.prems have "one_adapter_each (snd (discover_device listing d s))"
    by (rule discover_device_one_each)
  then show ?case
    using Cons.IH by (simp add: split_def)
qed

subsection \<open>A concrete adapter state\<close>

text \<open>
  One device \<open>aa\<close> is tracked already. Discovery then reports \<open>aa\<close> and the simulator;
  \<open>device_portless\<close> is a record whose URL has no port part.
\<close>

definition adapter_aa :: Adapter where
  "adapter_aa = \<lparr>adapter_id = ''ios_aa'', adapter_url = ''ws://localhost'', port = Some 9222\<rparr>"

definition device_aa :: IIOSDeviceTarget where
  "device_aa = \<lparr>deviceId = ''aa'', deviceOSVersion = JStr ''12.2'', url = ''localhost:9222'',
                 version = JUndefined\<rparr>"

definition device_sim :: IIOSDeviceTarget where
  "device_sim = \<lparr>deviceId = ''SIMULATOR'', deviceOSVersion = JUndefined,
                  url = ''localhost:9223'', version = JUndefined\<rparr>"

definition device_portless :: IIOSDeviceTarget where
  "device_portless = \<lparr>deviceId = ''bb'', deviceOSVersion = JUndefined, url = ''localhost'',
                       version = JUndefined\<rparr>"

definition target_sim :: Target where
  "target_sim = \<lparr>targetBased = True,
                  metadata = \<lparr>deviceId = ''SIMULATOR'', deviceOSVersion = JUndefined,
                              url = ''localhost:9223'', version = JStr ''13.4''\<rparr>\<rparr>"

definition state0 :: IOSAdapter where
  "state0 = \<lparr>collection_id = ''ios'', proxyUrl = ''ws://localhost'', simUdid = ''SIM1'',
              adapters = [''ios_aa'' \<mapsto> adapter_aa],
              simulatorVersionMap = Map.empty, protocolMap = Map.empty,
              targets = (\<lambda>r. target_sim),
              started = [adapter_aa], constructed = []\<rparr>"

lemmas example_defs =
  state0_def adapter_aa_def device_aa_def device_sim_def device_portless_def target_sim_def

lemmas getTargets_eval =
  getTargets_def discover_device_def getSimulatorVersion_def simctl_version_def
  adapterId_of_def part_string_def parseInt10_def is_white_def is_digit_def
  digits_val_def digit_val_def Let_def

lemma state0_first_pass:
  "started (snd (getTargets (Inr [device_aa, device_sim]) (Inl (Error ''xcrun'')) state0))
     = [adapter_aa,
        \<lparr>adapter_id = ''ios_SIMULATOR'', adapter_url = ''ws://localhost'', port = Some 9223\<rparr>]"
  "adapters (snd (getTargets (Inr [device_aa, device_sim]) (Inl (Error ''xcrun'')) state0))
       ''ios_SIMULATOR''
     = Some \<lparr>adapter_id = ''ios_SIMULATOR'', adapter_url = ''ws://localhost'', port = Some 9223\<rparr>"
  "fst (getTargets (Inr [device_aa, device_sim]) (Inl (Error ''xcrun'')) state0)
     = [device_aa\<lparr>version := JStr ''12.2''\<rparr>, device_sim\<lparr>version := JStr ''9.3.0''\<rparr>]"
  by (simp_all add: example_defs getTargets_eval)

subsection \<open>Rediscovery creates nothing\<close>

text \<open>
  Claim C7. A discovery pass leaves every adapter already in the map as it is. A second
  pass over the same discovery result changes neither the adapter map nor the list of
  adapters constructed and started, so it creates no adapter at all. And a pass keeps
  this true: the adapters started so far have pairwise distinct ids, each tracked in the
  map, that is, at most one adapter per device id.
\<close>

theorem getTargets_no_duplicate:
  "(\<forall>k\<in>dom (adapters s).
       adapters (snd (getTargets discovery listing s)) k = adapters s k)
   \<and> adapters (snd (getTargets discovery listing' (snd (getTargets discovery listing s))))
       = adapters (snd (getTargets discovery listing s))
   \<and> started (snd (getTargets discovery listing' (snd (getTargets discovery listing s))))
       = started (snd (getTargets discovery listing s))
   \<and> (one_adapter_each s \<longrightarrow> one_adapter_each (snd (getTargets discovery listing s)))"
proof (cases discovery)
  case (Inl e)
  then show ?thesis by (simp add: getTargets_def)
next
  case (Inr raw)
  let ?s1 = "snd (discover_all listing raw [] s)"
  have "\<forall>d\<in>set raw. tracked_or_portless ?s1 d"
    by (rule discover_all_settles)
  then have "adapters (snd (discover_all listing' raw [] ?s1)) = adapters ?s1
             \<and> started (snd (discover_all listing' raw [] ?s1)) = started ?s1"
    by (rule discover_all_settled)
  with Inr show ?thesis
    by (auto simp: getTargets_def discover_all_keeps discover_all_one_each)
qed

theorem getTargets_no_duplicate_witness:
  "adapters (snd (getTargets (Inr [device_aa, device_sim]) (Inl (Error ''xcrun'')) state0))
       ''ios_aa''
     = Some adapter_aa
   \<and> started (snd (getTargets (Inr [device_aa, device_sim]) (Inl (Error ''xcrun''))
                 (snd (getTargets (Inr [device_aa, device_sim]) (Inl (Error ''xcrun''))
                         state0))))
     = [adapter_aa,
        \<lparr>adapter_id = ''ios_SIMULATOR'', adapter_url = ''ws://localhost'', port = Some 9223\<rparr>]
   \<and> one_adapter_each (snd (getTargets (Inr [device_aa, device_sim]) (Inl (Error ''xcrun''))
                               state0))"
proof -
  note t = getTargets_no_duplicate
             [of state0 "Inr [device_aa, device_sim]" "Inl (Error ''xcrun'')"
                 "Inl (Error ''xcrun'')"]
  have k: "''ios_aa'' \<in> dom (adapters state0)" and a: "adapters state0 ''ios_aa'' = Some adapter_aa"
    by (simp_all add: state0_def)
  have i: "one_adapter_each state0"
    by (simp add: one_adapter_each_def state0_def adapter_aa_def)
  from t k a have
    "adapters (snd (getTargets (Inr [device_aa, device_sim]) (Inl (Error ''xcrun'')) state0))
        ''ios_aa'' = Some adapter_aa"
    by metis
  moreover from t have
    "started (snd (getTargets (Inr [device_aa, device_sim]) (Inl (Error ''xcrun''))
                 (snd (getTargets (Inr [device_aa, device_sim]) (Inl (Error ''xcrun''))
                         state0))))
       = started (snd (getTargets (Inr [device_aa, device_sim]) (Inl (Error ''xcrun''))
                        state0))"
    by blast
  moreover from t i have
    "one_adapter_each (snd (getTargets (Inr [device_aa, device_sim]) (Inl (Error ''xcrun''))
                              state0))"
    by blast
  ultimately show ?thesis
    by (simp add: state0_first_pass(1))
qed

subsection \<open>A new device gets its adapter\<close>

















section \<open>Connection: properties\<close>

text \<open>
  Claim C9. Let a \<open>connectTo\<close> that resolves to the target \<open>r\<close> succeed. If \<open>r\<close> had no
  binding, the call resolved the protocol from the version and device id in the target's
  metadata, constructed it once and cached the binding; if \<open>r\<close> had one, the call changed
  nothing. In both cases a later \<open>connectTo\<close> to \<open>r\<close> returns \<open>r\<close> and leaves the state as
  it is: it reuses the binding and constructs nothing. No \<open>connectTo\<close> removes or
  replaces a binding.
\<close>

theorem connectTo_binding:
  assumes "connectTo base (Inr (Some r)) u s = Inr (r', s')"
  shows "r' = r
     \<and> (protocolMap s r = None \<longrightarrow>
          (\<exists>p t'. getProtocolFor (version (metadata (targets s r))) (targets s r) = Inr p
             \<and> new_protocol base p (targets s r) = Inr t'
             \<and> s' = s\<lparr>targets := (targets s)(r := t'),
                       protocolMap := (protocolMap s)(r \<mapsto> p),
                       constructed := constructed s @ [(r, p)]\<rparr>))
     \<and> (protocolMap s r \<noteq> None \<longrightarrow> s' = s)
     \<and> connectTo base (Inr (Some r)) u' s' = Inr (r, s')
     \<and> (\<forall>q p. protocolMap s q = Some p \<longrightarrow> protocolMap s' q = Some p)"
  using assms
  by (auto simp: connectTo_def Let_def split: sum.splits option.splits if_splits)

lemma state0_connect:
  "connectTo (\<lambda>p. IOS12Protocol_constructor) (Inr (Some 0)) ''/ios_SIMULATOR/page/1'' state0
     = Inr (0, state0\<lparr>targets := (targets state0)(0 := target_sim\<lparr>targetBased := False\<rparr>),
                      protocolMap := (protocolMap state0)(0 \<mapsto> IOS13Protocol),
                      constructed := constructed state0 @ [(0, IOS13Protocol)]\<rparr>)"
  using version_13_4
  by (simp add: connectTo_def state0_def target_sim_def getProtocolFor_string new_protocol_def
        IOS13Protocol_constructor_def IOS12Protocol_constructor_def
        num_le_def num_gt_def num_ge_def num_eq_def)

theorem connectTo_binding_witness:
  "connectTo (\<lambda>p. IOS12Protocol_constructor) (Inr (Some 0)) ''/ios_SIMULATOR/page/1'' state0
     = Inr (0, state0\<lparr>targets := (targets state0)(0 := target_sim\<lparr>targetBased := False\<rparr>),
                      protocolMap := (protocolMap state0)(0 \<mapsto> IOS13Protocol),
                      constructed := constructed state0 @ [(0, IOS13Protocol)]\<rparr>)
   \<and> connectTo (\<lambda>p. IOS12Protocol_constructor) (Inr (Some 0)) ''/ios_SIMULATOR/page/1''
        (state0\<lparr>targets := (targets state0)(0 := target_sim\<lparr>targetBased := False\<rparr>),
                protocolMap := (protocolMap state0)(0 \<mapsto> IOS13Protocol),
                constructed := constructed state0 @ [(0, IOS13Protocol)]\<rparr>)
     = Inr (0, state0\<lparr>targets := (targets state0)(0 := target_sim\<lparr>targetBased := False\<rparr>),
                      protocolMap := (protocolMap state0)(0 \<mapsto> IOS13Protocol),
                      constructed := constructed state0 @ [(0, IOS13Protocol)]\<rparr>)"
  using connectTo_binding [OF state0_connect, of "''/ios_SIMULATOR/page/1''"] state0_connect
  by blast

section \<open>The fallback version\<close>

lemma version_9_3_0: "version_major ''9.3.0'' = Some 9 \<and> version_minor ''9.3.0'' = Some 3"
  by code_simp

text \<open>
  Claim C10. The fallback version string is "9.3.0". A record of a physical device whose
  \<open>deviceOSVersion\<close> is absent (or otherwise falsy) gets it as its version. So does the
  simulator when the version is not cached and the \<open>try\<close> block of \<open>getSimulatorVersion\<close>
  throws, as it does when the shell-out fails; the fallback is then cached. And the
  resolver maps "9.3.0" to the default IOS9Protocol for every target.
\<close>

theorem fallback_version:
  "(deviceId d \<noteq> ''SIMULATOR'' \<and> \<not> truthy (deviceOSVersion d) \<longrightarrow>
      fst (discover_device listing d s) = d\<lparr>version := JStr ''9.3.0''\<rparr>)
   \<and> (cache udid = None \<and> simctl_version listing udid = Inl e \<longrightarrow>
        getSimulatorVersion listing udid cache
          = (JStr ''9.3.0'', cache(udid \<mapsto> JStr ''9.3.0'')))
   \<and> simctl_version (Inl e) udid = Inl e
   \<and> getProtocolFor (JStr ''9.3.0'') target = Inr IOS9Protocol"
  using version_9_3_0
  by (auto simp: discover_device_def Let_def split_def getSimulatorVersion_def simctl_version_def
        getProtocolFor_string num_le_def num_gt_def num_ge_def num_eq_def)

theorem fallback_version_witness:
  "fst (discover_device (Inl (Error ''xcrun'')) device_portless state0)
     = device_portless\<lparr>version := JStr ''9.3.0''\<rparr>
   \<and> fst (getSimulatorVersion (Inl (Error ''xcrun'')) ''SIM1'' Map.empty) = JStr ''9.3.0''
   \<and> snd (getSimulatorVersion (Inl (Error ''xcrun'')) ''SIM1'' Map.empty) ''SIM1''
       = Some (JStr ''9.3.0'')
   \<and> getProtocolFor (JStr ''9.3.0'') target_sim = Inr IOS9Protocol"
proof -
  note t = fallback_version
             [of device_portless "Inl (Error ''xcrun'')" state0 Map.empty "''SIM1''"
                 "Error ''xcrun''" target_sim]
  have a: "deviceId device_portless \<noteq> ''SIMULATOR'' \<and> \<not> truthy (deviceOSVersion device_portless)"
    by (simp add: device_portless_def)
  have b: "(Map.empty :: string \<rightharpoonup> jsval) ''SIM1'' = None
           \<and> simctl_version (Inl (Error ''xcrun'')) ''SIM1'' = Inl (Error ''xcrun'')"
    by (simp add: simctl_version_def)
  from t a b show ?thesis by simp
qed

section \<open>The components of a dotted version string\<close>

text \<open>
  \<open>version_major\<close> and \<open>version_minor\<close> are what the resolver reads. The lemmas below
  check them against the written form: \<open>String(n)\<close> parses back to \<open>n\<close>, and a string
  written \<open>MAJOR.MINOR\<close> or \<open>MAJOR.MINOR.rest\<close> has the components \<open>MAJOR\<close> and \<open>MINOR\<close>.
\<close>

lemma is_digit_digit_char: "d < 10 \<Longrightarrow> is_digit (digit_char d)"
proof -
  assume "d < 10"
  then have "d \<in> {0, 1, 2, 3, 4, 5, 6, 7, 8, 9}" by auto
  then show ?thesis by (auto simp: is_digit_def digit_char_def)
qed

lemma dec_digits: "\<forall>c\<in>set (dec n). is_digit c"
proof (induction n rule: dec.induct)
  case (1 n)
  show ?case
  proof (cases "n < 10")
    case True
    then show ?thesis
      by (subst dec.simps) (simp add: is_digit_digit_char)
  next
    case False
    with "1" have "\<forall>c\<in>set (dec (n div 10)). is_digit c" by simp
    with False show ?thesis
      by (subst dec.simps) (simp add: is_digit_digit_char)
  qed
qed

lemma dec_nonempty: "dec n \<noteq> []"
  by (subst dec.simps) simp

lemma is_digit_plain:
  assumes "is_digit c"
  shows "\<not> is_white c" "c \<noteq> CHR ''.''" "c \<noteq> CHR ''+''" "c \<noteq> CHR ''-''"
  using assms by (auto simp: is_digit_def is_white_def)

lemma parseInt10_digits:
  assumes "ds \<noteq> []" "\<forall>c\<in>set ds. is_digit c"
  shows "parseInt10 ds = Some (int (digits_val ds))"
proof -
  from assms obtain c cs where ds: "ds = c # cs" and c: "is_digit c"
    by (cases ds) auto
  have tw: "takeWhile is_digit ds = ds"
    using assms(2) by (simp add: takeWhile_eq_all_conv)
  from ds c have dw: "dropWhile is_white ds = ds"
    by (simp add: is_digit_plain)
  from ds c have hd: "hd ds \<noteq> CHR ''+''" "hd ds \<noteq> CHR ''-''"
    by (simp_all add: is_digit_plain)
  show ?thesis
    unfolding parseInt10_def Let_def dw
    using hd assms(1) by (simp add: tw)
qed

lemma parseInt10_dec: "parseInt10 (dec n) = Some (int n)"
  using parseInt10_digits [OF dec_nonempty, of n] dec_digits [of n]
  by (simp add: digits_val_dec)

lemma split_on_append:
  "c \<notin> set xs \<Longrightarrow> split_on c (xs @ c # ys) = xs # split_on c ys"
  by (induction xs) auto

lemma split_on_none: "c \<notin> set xs \<Longrightarrow> split_on c xs = [xs]"
  by (induction xs) auto

lemma dec_no_dot: "CHR ''.'' \<notin> set (dec n)"
  using dec_digits [of n] is_digit_plain(2) by blast

text \<open>
  On a string written \<open>MAJOR.MINOR\<close> or \<open>MAJOR.MINOR.rest\<close>, with both components in
  decimal, the resolver reads exactly these two numbers.
\<close>

lemma version_components_dotted:
  assumes "rest = [] \<or> hd rest = CHR ''.''"
  shows "version_major (dec M @ ''.'' @ dec m @ rest) = Some (int M)"
    and "version_minor (dec M @ ''.'' @ dec m @ rest) = Some (int m)"
proof -
  have "\<exists>ps. split_on CHR ''.'' (dec m @ rest) = dec m # ps"
  proof (cases rest)
    case Nil
    then show ?thesis by (simp add: split_on_none dec_no_dot)
  next
    case (Cons x xs)
    with assms have "rest = CHR ''.'' # xs" by simp
    then show ?thesis by (simp add: split_on_append dec_no_dot)
  qed
  then obtain ps where "split_on CHR ''.'' (dec m @ rest) = dec m # ps" ..
  then have parts: "split_on CHR ''.'' (dec M @ ''.'' @ dec m @ rest) = dec M # dec m # ps"
    by (simp add: split_on_append dec_no_dot)
  show "version_major (dec M @ ''.'' @ dec m @ rest) = Some (int M)"
    by (simp only: version_major_def parts) (simp add: part_string_def parseInt10_dec)
  show "version_minor (dec M @ ''.'' @ dec m @ rest) = Some (int m)"
    by (simp only: version_minor_def parts) (simp add: part_string_def parseInt10_dec)
qed

end
